theory Spec2Isabelle
  imports Main "HOL-Library.Word" "HOL-Library.AList" "HOL-Library.Multiset"
begin

section \<open>Guest agent: data model\<close>

text \<open>
  \<^verbatim>\<open>api.IPPort\<close> is a struct \<^verbatim>\<open>{IP net.IP; Port int}\<close>; \<^verbatim>\<open>net.IP\<close> is a byte slice.
  The port is a Go \<^verbatim>\<open>int\<close>; the code only copies and compares it, so no arithmetic can
  wrap and \<^typ>\<open>int\<close> is exact.
\<close>

type_synonym net_IP = "8 word list"

record IPPort =
  IP :: net_IP
  Port :: int

text \<open>
  \<^verbatim>\<open>eventState\<close> (part_001, lines 355-358): the snapshot kept between two polling cycles.
\<close>

record eventState =
  ports :: "IPPort list"
  sockets :: "string list"

text \<open>
  A Go \<^verbatim>\<open>map[string]T\<close> is an association list with one entry per key
  (\<^const>\<open>AList.update\<close> overwrites in place or appends), looked up with \<^const>\<open>map_of\<close>.
  Go leaves the order in which \<^verbatim>\<open>range\<close> visits a map unspecified: the order is a
  parameter \<open>visit\<close> of the functions that range over a map, and the theorems hold for
  every \<open>visit\<close> that permutes the entries.
\<close>

type_synonym 'v gomap = "(string \<times> 'v) list"

type_synonym rangeOrder = "bool gomap \<Rightarrow> bool gomap"

section \<open>Guest agent: \<^verbatim>\<open>comparePorts\<close> and \<^verbatim>\<open>compareSockets\<close>\<close>

text \<open>
  The third loop of both functions (lines 377-383 and 401-407):
  \<^verbatim>\<open>for k, stillExist := range mStillExist {
       if !stillExist { if x, ok := mRaw[k]; ok { removed = append(removed, x) } } }\<close>
  run over the entries in the order the runtime visits them.
\<close>

fun range_mStillExist :: "'v gomap \<Rightarrow> bool gomap \<Rightarrow> 'v list \<Rightarrow> 'v list" where
  "range_mStillExist mRaw [] removed = removed"
| "range_mStillExist mRaw ((k, stillExist) # rest) removed =
     range_mStillExist mRaw rest
       (if \<not> stillExist
        then (case map_of mRaw k of Some x \<Rightarrow> removed @ [x] | None \<Rightarrow> removed)
        else removed)"

text \<open>
  \<^verbatim>\<open>comparePorts\<close> (lines 360-385). \<^verbatim>\<open>IPPort.String\<close> is declared in package \<^verbatim>\<open>api\<close>,
  which is not part of the sources at hand: it is the parameter \<open>String\<close>.
  First loop (364-368): \<^verbatim>\<open>k := f.String(); mRaw[k] = f; mStillExist[k] = false\<close>.
\<close>

fun comparePorts_old ::
  "(IPPort \<Rightarrow> string) \<Rightarrow> IPPort list \<Rightarrow> IPPort gomap \<times> bool gomap \<Rightarrow> IPPort gomap \<times> bool gomap"
where
  "comparePorts_old String [] (mRaw, mStillExist) = (mRaw, mStillExist)"
| "comparePorts_old String (f # old) (mRaw, mStillExist) =
     comparePorts_old String old
       (AList.update (String f) f mRaw, AList.update (String f) False mStillExist)"

text \<open>
  Second loop (369-375): \<^verbatim>\<open>k := f.String(); if _, ok := mRaw[k]; !ok { added = append(added, f) };
  mStillExist[k] = true\<close>.
\<close>

fun comparePorts_new ::
  "(IPPort \<Rightarrow> string) \<Rightarrow> IPPort gomap \<Rightarrow> IPPort list \<Rightarrow> IPPort list \<times> bool gomap
     \<Rightarrow> IPPort list \<times> bool gomap"
where
  "comparePorts_new String mRaw [] (added, mStillExist) = (added, mStillExist)"
| "comparePorts_new String mRaw (f # neww) (added, mStillExist) =
     comparePorts_new String mRaw neww
       ((if map_of mRaw (String f) = None then added @ [f] else added),
        AList.update (String f) True mStillExist)"

definition comparePorts ::
  "(IPPort \<Rightarrow> string) \<Rightarrow> rangeOrder \<Rightarrow> IPPort list \<Rightarrow> IPPort list \<Rightarrow> IPPort list \<times> IPPort list"
where
  "comparePorts String visit old neww =
     (case comparePorts_old String old ([], []) of (mRaw, mStillExist0) \<Rightarrow>
      case comparePorts_new String mRaw neww ([], mStillExist0) of (added, mStillExist) \<Rightarrow>
        (added, range_mStillExist mRaw (visit mStillExist) []))"

text \<open>
  \<^verbatim>\<open>compareSockets\<close> (lines 387-409). First loop (391-393): \<^verbatim>\<open>mStillExist[k] = false\<close>;
  \<^verbatim>\<open>mRaw\<close> is created at line 388 and never written.
\<close>

fun compareSockets_old :: "string list \<Rightarrow> bool gomap \<Rightarrow> bool gomap" where
  "compareSockets_old [] mStillExist = mStillExist"
| "compareSockets_old (k # old) mStillExist =
     compareSockets_old old (AList.update k False mStillExist)"

text \<open>
  Second loop (394-399): \<^verbatim>\<open>if _, ok := mStillExist[k]; !ok { added = append(added, k) };
  mStillExist[k] = true\<close>.
\<close>

fun compareSockets_new ::
  "string list \<Rightarrow> string list \<times> bool gomap \<Rightarrow> string list \<times> bool gomap"
where
  "compareSockets_new [] (added, mStillExist) = (added, mStillExist)"
| "compareSockets_new (k # neww) (added, mStillExist) =
     compareSockets_new neww
       ((if map_of mStillExist k = None then added @ [k] else added),
        AList.update k True mStillExist)"

definition compareSockets ::
  "rangeOrder \<Rightarrow> string list \<Rightarrow> string list \<Rightarrow> string list \<times> string list"
where
  "compareSockets visit old neww =
     (let mRaw = ([] :: string gomap);
          mStillExist0 = compareSockets_old old []
      in case compareSockets_new neww ([], mStillExist0) of (added, mStillExist) \<Rightarrow>
           (added, range_mStillExist mRaw (visit mStillExist) []))"

text \<open>
  A key function for the examples: the form \<^verbatim>\<open>IPPort.String\<close> gives an endpoint with a
  4-byte address, that is the bytes in decimal joined by dots, a colon, and the port in
  decimal (\<^verbatim>\<open>127.0.0.1:80\<close>). The theorems about \<^verbatim>\<open>comparePorts\<close> hold for every key
  function; this one only serves to run the code on concrete endpoints.
\<close>

fun decimal :: "nat \<Rightarrow> string" where
  "decimal n =
     (if n < 10 then [''0123456789'' ! n]
      else decimal (n div 10) @ [''0123456789'' ! (n mod 10)])"

declare decimal.simps [simp del]

fun dotted :: "net_IP \<Rightarrow> string" where
  "dotted [] = []"
| "dotted [b] = decimal (unat b)"
| "dotted (b # bs) = decimal (unat b) @ ''.'' @ dotted bs"

definition IPv4_String :: "IPPort \<Rightarrow> string" where
  "IPv4_String x =
     dotted (IP x) @ '':'' @
     (if Port x < 0 then ''-'' @ decimal (nat (- Port x)) else decimal (nat (Port x)))"

section \<open>Guest agent: sampling (\<^verbatim>\<open>LocalPorts\<close>, \<^verbatim>\<open>LocalSockets\<close>)\<close>

text \<open>
  A Go \<^verbatim>\<open>error\<close> of the guest agent: the code only ever reads its message
  (\<^verbatim>\<open>err.Error()\<close>), so an error is the value \<^verbatim>\<open>errors.New\<close> builds from a message.
\<close>

datatype error = errors_New string

fun Error :: "error \<Rightarrow> string" where
  "Error (errors_New msg) = msg"

text \<open>
  The packages \<^verbatim>\<open>procnettcp\<close>, \<^verbatim>\<open>procnetunix\<close> and \<^verbatim>\<open>iptables\<close> are not part of the
  sources at hand. Their entry types carry the fields \<^verbatim>\<open>LocalPorts\<close> and
  \<^verbatim>\<open>LocalSockets\<close> read (\<^verbatim>\<open>f.Kind\<close>, \<^verbatim>\<open>f.State\<close>, \<^verbatim>\<open>f.IP\<close>, \<^verbatim>\<open>f.Port\<close>, \<^verbatim>\<open>f.Path\<close>,
  \<^verbatim>\<open>ipt.IP\<close>, \<^verbatim>\<open>ipt.Port\<close>), and their enumerations the values the code compares with,
  plus one constructor for every other value. \<^verbatim>\<open>f.Port\<close> is converted with \<^verbatim>\<open>int(f.Port)\<close>
  from an unsigned 16-bit field.
\<close>

datatype procnettcp_Kind = TCP | TCP6 | OtherKind

datatype procnettcp_State = TCPListen | OtherTCPState

record procnettcp_Entry =
  tcp_Kind :: procnettcp_Kind
  tcp_State :: procnettcp_State
  tcp_IP :: net_IP
  tcp_Port :: "16 word"

datatype procnetunix_State =
  StateUnconnected | StateConnecting | StateConnected | OtherUnixState

record procnetunix_Entry =
  unix_Path :: string
  unix_State :: procnetunix_State

record iptables_Entry =
  ipt_IP :: net_IP
  ipt_Port :: int

text \<open>
  What one polling cycle finds outside the agent: the host's byte order, the results of
  the three external reads (\<open>Inl\<close> is the error the call returns), the clock, and the
  orders in which the runtime visits the two \<^verbatim>\<open>mStillExist\<close> maps of this cycle.
\<close>

type_synonym time = int

record world =
  NativeEndian_isBigEndian :: bool
  procnettcp_ParseFiles :: "error + procnettcp_Entry list"
  iptables_GetPorts :: "error + iptables_Entry list"
  procnetunix_ParseFile :: "error + procnetunix_Entry list"
  time_Now :: time
  rangePorts :: rangeOrder
  rangeSockets :: rangeOrder

text \<open>
  The fields of \<^verbatim>\<open>agent\<close> (lines 306-316) that the sampling reads and writes; the locks
  only serialise the accesses and the ticker factory belongs to the \<^verbatim>\<open>Events\<close> loop.
\<close>

record agent =
  worthCheckingIPTables :: bool
  latestIPTables :: "iptables_Entry list"

text \<open>The external reads a call performs, in order.\<close>

datatype call = Call_procnettcp_ParseFiles | Call_iptables_GetPorts | Call_procnetunix_ParseFile

definition bigEndianError :: error where
  "bigEndianError = errors_New
     (''big endian architecture is unsupported, because I don'' @ [CHR 0x27] @
      ''t know how /proc/net/tcp looks like on big endian hosts'')"

text \<open>Lines 478-491: keep the listening TCP and TCP6 entries.\<close>

fun LocalPorts_listening :: "procnettcp_Entry list \<Rightarrow> IPPort list \<Rightarrow> IPPort list" where
  "LocalPorts_listening [] res = res"
| "LocalPorts_listening (f # tcpParsed) res =
     LocalPorts_listening tcpParsed
       (case tcp_Kind f of
          OtherKind \<Rightarrow> res
        | _ \<Rightarrow> (if tcp_State f = TCPListen
                then res @ [\<lparr>IP = tcp_IP f, Port = uint (tcp_Port f)\<rparr>]
                else res))"

text \<open>Lines 515-520: \<^verbatim>\<open>found\<close> after the inner loop over \<^verbatim>\<open>res\<close>.\<close>

fun LocalPorts_found :: "IPPort list \<Rightarrow> int \<Rightarrow> bool \<Rightarrow> bool" where
  "LocalPorts_found [] p found = found"
| "LocalPorts_found (re # res) p found =
     LocalPorts_found res p (if Port re = p then True else found)"

text \<open>Lines 513-528: the loop over the packet-filter entries; \<^verbatim>\<open>res\<close> grows as it runs.\<close>

fun LocalPorts_merge :: "iptables_Entry list \<Rightarrow> IPPort list \<Rightarrow> IPPort list" where
  "LocalPorts_merge [] res = res"
| "LocalPorts_merge (ipt # ipts) res =
     LocalPorts_merge ipts
       (if \<not> LocalPorts_found res (ipt_Port ipt) False
        then res @ [\<lparr>IP = ipt_IP ipt, Port = ipt_Port ipt\<rparr>]
        else res)"

text \<open>
  \<^verbatim>\<open>LocalPorts\<close> (lines 468-531) returns the pair \<^verbatim>\<open>(res, err)\<close> as Go does (a list
  together with an optional error), the agent with its cache updated, and the external
  reads it made. A nil slice and an empty slice are both \<open>[]\<close>.
\<close>

definition LocalPorts ::
  "world \<Rightarrow> agent \<Rightarrow> (IPPort list \<times> error option) \<times> agent \<times> call list"
where
  "LocalPorts w a =
     (if NativeEndian_isBigEndian w then (([], Some bigEndianError), a, [])
      else case procnettcp_ParseFiles w of
        Inl err \<Rightarrow> (([], Some err), a, [Call_procnettcp_ParseFiles])
      | Inr tcpParsed \<Rightarrow>
          (let res = LocalPorts_listening tcpParsed [] in
           if worthCheckingIPTables a then
             (case iptables_GetPorts w of
                Inl err \<Rightarrow>
                  ((res, Some err), a, [Call_procnettcp_ParseFiles, Call_iptables_GetPorts])
              | Inr ipts \<Rightarrow>
                  ((LocalPorts_merge ipts res, None), a\<lparr>latestIPTables := ipts\<rparr>,
                   [Call_procnettcp_ParseFiles, Call_iptables_GetPorts]))
           else
             ((LocalPorts_merge (latestIPTables a) res, None), a,
              [Call_procnettcp_ParseFiles])))"

text \<open>\<^verbatim>\<open>LocalSockets\<close> (lines 549-561).\<close>

fun LocalSockets_loop :: "procnetunix_Entry list \<Rightarrow> string list \<Rightarrow> string list" where
  "LocalSockets_loop [] res = res"
| "LocalSockets_loop (f # parsed) res =
     LocalSockets_loop parsed
       (case unix_State f of
          OtherUnixState \<Rightarrow> res
        | _ \<Rightarrow> res @ [unix_Path f])"

definition LocalSockets :: "world \<Rightarrow> (string list \<times> error option) \<times> call list" where
  "LocalSockets w =
     (case procnetunix_ParseFile w of
        Inl err \<Rightarrow> (([], Some err), [Call_procnetunix_ParseFile])
      | Inr parsed \<Rightarrow> ((LocalSockets_loop parsed [], None), [Call_procnetunix_ParseFile]))"

section \<open>Guest agent: \<^verbatim>\<open>collectEvent\<close>, \<^verbatim>\<open>isEventEmpty\<close>, \<^verbatim>\<open>Events\<close>\<close>

text \<open>
  \<^verbatim>\<open>api.Event\<close>, with the fields \<^verbatim>\<open>collectEvent\<close> writes. Every slice of an event starts
  nil and only grows by \<^verbatim>\<open>append\<close>, so it is never empty and non-nil, and the list \<open>[]\<close>
  stands for nil. \<^verbatim>\<open>time.Time{}\<close> is the time \<open>0\<close>.
\<close>

record Event =
  Time :: time
  LocalPortsAdded :: "IPPort list"
  LocalPortsRemoved :: "IPPort list"
  LocalSocketsAdded :: "string list"
  LocalSocketsRemoved :: "string list"
  Errors :: "string list"

definition empty_Event :: Event where
  "empty_Event =
     \<lparr>Time = 0, LocalPortsAdded = [], LocalPortsRemoved = [],
      LocalSocketsAdded = [], LocalSocketsRemoved = [], Errors = []\<rparr>"

text \<open>
  \<^verbatim>\<open>collectEvent\<close> (lines 411-435) returns the event and the new state; the model also
  returns the agent and the external reads made.
\<close>

definition collectEvent ::
  "(IPPort \<Rightarrow> string) \<Rightarrow> world \<Rightarrow> agent \<Rightarrow> eventState
     \<Rightarrow> Event \<times> eventState \<times> agent \<times> call list"
where
  "collectEvent String w a st =
     (case LocalPorts w a of ((ps, err), a', calls) \<Rightarrow>
       (let newSt = st\<lparr>ports := ps\<rparr> in
        (case err of
           Some e \<Rightarrow>
             (empty_Event\<lparr>Errors := [Error e], Time := time_Now w\<rparr>, newSt, a', calls)
         | None \<Rightarrow>
             (case comparePorts String (rangePorts w) (ports st) (ports newSt) of
                (portsAdded, portsRemoved) \<Rightarrow>
                 (let ev = empty_Event\<lparr>LocalPortsAdded := portsAdded,
                                        LocalPortsRemoved := portsRemoved\<rparr> in
                  (case LocalSockets w of ((ss, err'), calls') \<Rightarrow>
                    (let newSt' = newSt\<lparr>sockets := ss\<rparr> in
                     (case err' of
                        Some e \<Rightarrow>
                          (ev\<lparr>Errors := Errors ev @ [Error e], Time := time_Now w\<rparr>,
                           newSt', a', calls @ calls')
                      | None \<Rightarrow>
                          (case compareSockets (rangeSockets w) (sockets st) (sockets newSt') of
                             (socketsAdded, socketsRemoved) \<Rightarrow>
                               (ev\<lparr>LocalSocketsAdded := socketsAdded,
                                   LocalSocketsRemoved := socketsRemoved,
                                   Time := time_Now w\<rparr>,
                                newSt', a', calls @ calls'))))))))))"

text \<open>\<^verbatim>\<open>isEventEmpty\<close> (lines 437-443).\<close>

definition isEventEmpty :: "Event \<Rightarrow> bool" where
  "isEventEmpty ev = (let copied = ev\<lparr>Time := 0\<rparr> in empty_Event = copied)"

text \<open>
  \<^verbatim>\<open>Events\<close> (lines 445-466). Each cycle of the loop is given by what it finds: the value
  of \<^verbatim>\<open>worthCheckingIPTables\<close> at that moment (another goroutine writes it), the world
  it samples, and what the \<^verbatim>\<open>select\<close> after it receives. The result is the list of
  events sent on \<^verbatim>\<open>ch\<close>; the loop starts from the zero \<^verbatim>\<open>eventState\<close> and stops after
  the last cycle given.
\<close>

datatype select_result = ctx_Done | ticker_closed | tick

fun Events_loop ::
  "(IPPort \<Rightarrow> string) \<Rightarrow> (bool \<times> world \<times> select_result) list \<Rightarrow> agent \<Rightarrow> eventState
     \<Rightarrow> Event list"
where
  "Events_loop String [] a st = []"
| "Events_loop String ((worth, w, sel) # cycles) a st =
     (case collectEvent String w (a\<lparr>worthCheckingIPTables := worth\<rparr>) st of
        (ev, st', a', calls) \<Rightarrow>
          (if \<not> isEventEmpty ev then [ev] else []) @
          (case sel of
             tick \<Rightarrow> Events_loop String cycles a' st'
           | _ \<Rightarrow> []))"

definition Events ::
  "(IPPort \<Rightarrow> string) \<Rightarrow> (bool \<times> world \<times> select_result) list \<Rightarrow> agent \<Rightarrow> Event list"
where
  "Events String cycles a = Events_loop String cycles a \<lparr>ports = [], sockets = []\<rparr>"

section \<open>Guest agent: \<^verbatim>\<open>setWorthCheckingIPTablesRoutine\<close>\<close>

text \<open>
  \<^verbatim>\<open>time.Duration\<close> is a signed 64-bit count of nanoseconds. Instants are integers
  (nanoseconds on the monotonic clock), and \<^verbatim>\<open>time.Since(t)\<close>, that is
  \<^verbatim>\<open>time.Now().Sub(t)\<close>, saturates at the least and the greatest \<^verbatim>\<open>Duration\<close>.
\<close>

type_synonym Duration = "64 word"

definition time_Sub :: "time \<Rightarrow> time \<Rightarrow> int" where
  "time_Sub t u = max (- (2 ^ 63)) (min (2 ^ 63 - 1) (t - u))"

text \<open>
  The routine (lines 323-353) runs two loops over the flag \<^verbatim>\<open>worthCheckingIPTables\<close> and
  the local \<^verbatim>\<open>latestTrue\<close>, each step under the lock. A step is one of: the receive loop
  gets a \<^verbatim>\<open>NETFILTER_CFG\<close> message (at the instant \<^verbatim>\<open>time.Now()\<close> returns), gets a
  message of another type, gets an error; the idle loop wakes from \<^verbatim>\<open>time.Sleep\<close> and
  checks (at the instant \<^verbatim>\<open>time.Since\<close> reads the clock).
\<close>

datatype routine_step =
  Receive_NETFILTER_CFG time | Receive_other | Receive_error | Idle_check time

record routine =
  flag :: bool
  latestTrue :: time

fun setWorthChecking_step :: "Duration \<Rightarrow> routine_step \<Rightarrow> routine \<Rightarrow> routine" where
  "setWorthChecking_step iptablesIdle (Receive_NETFILTER_CFG now) r =
     r\<lparr>flag := True, latestTrue := now\<rparr>"
| "setWorthChecking_step iptablesIdle Receive_other r = r"
| "setWorthChecking_step iptablesIdle Receive_error r = r"
| "setWorthChecking_step iptablesIdle (Idle_check now) r =
     (let elapsedSinceLastTrue = time_Sub now (latestTrue r) in
      if elapsedSinceLastTrue \<ge> sint iptablesIdle then r\<lparr>flag := False\<rparr> else r)"

fun setWorthCheckingIPTablesRoutine ::
  "Duration \<Rightarrow> routine_step list \<Rightarrow> routine \<Rightarrow> routine"
where
  "setWorthCheckingIPTablesRoutine iptablesIdle [] r = r"
| "setWorthCheckingIPTablesRoutine iptablesIdle (s # steps) r =
     setWorthCheckingIPTablesRoutine iptablesIdle steps
       (setWorthChecking_step iptablesIdle s r)"

text \<open>The steps that are idle-loop checks, and the instants of the checks.\<close>

fun check_times :: "routine_step list \<Rightarrow> time list" where
  "check_times [] = []"
| "check_times (Idle_check now # steps) = now # check_times steps"
| "check_times (s # steps) = check_times steps"

fun is_notification :: "routine_step \<Rightarrow> bool" where
  "is_notification (Receive_NETFILTER_CFG now) = True"
| "is_notification s = False"

section \<open>Host side: \<^verbatim>\<open>watchHostAgentEvents\<close> and \<^verbatim>\<open>Start\<close> (pkg/start/start.go)\<close>

text \<open>
  \<^verbatim>\<open>hostagentapi.Event\<close> and its \<^verbatim>\<open>Status\<close> are declared in a package that is not part of
  the sources at hand; the fields are those \<^verbatim>\<open>onEvent\<close> reads.
\<close>

record Status =
  SSHLocalPort :: int
  Running :: bool
  Degraded :: bool
  Exiting :: bool
  Status_Errors :: "string list"

record hostagentapi_Event =
  Event_Status :: Status

text \<open>
  The errors \<^verbatim>\<open>Start\<close> and its helpers build, by the format string that builds them, and
  the errors external calls return (\<open>external_error\<close>, with the message).
\<close>

datatype start_error =
    external_error string
  | seems_running string string
  | failed_to_initialize_samba start_error
  | did_not_start_up string string
  | exiting_status Status string
  | degraded_status Status
  | did_not_receive_running
  | host_agent_process_has_exited "start_error option"

datatype log_line =
    Infof_SSH_Local_Port int
  | Errorf_Errors "string list"
  | Warnf_DEGRADED string
  | Infof_READY string

text \<open>\<^verbatim>\<open>LimactlShellCmd\<close> (lines 190-196).\<close>

definition LimactlShellCmd :: "string \<Rightarrow> string" where
  "LimactlShellCmd instName =
     (let shellCmd = ''limactl shell '' @ instName in
      if instName = ''default'' then ''lima'' else shellCmd)"

text \<open>
  The variables the closure \<^verbatim>\<open>onEvent\<close> captures (lines 143-147), and what it logs.
\<close>

record watch_vars =
  printedSSHLocalPort :: bool
  receivedRunningEvent :: bool
  err :: "start_error option"
  logged :: "log_line list"

text \<open>\<^verbatim>\<open>onEvent\<close> (lines 148-173): the returned flag tells the watcher to stop.\<close>

definition onEvent ::
  "string \<Rightarrow> string \<Rightarrow> hostagentapi_Event \<Rightarrow> watch_vars \<Rightarrow> bool \<times> watch_vars"
where
  "onEvent instName haStderrPath ev v0 =
     (let st = Event_Status ev;
          v1 = (if \<not> printedSSHLocalPort v0 \<and> SSHLocalPort st \<noteq> 0
                then v0\<lparr>logged := logged v0 @ [Infof_SSH_Local_Port (SSHLocalPort st)],
                        printedSSHLocalPort := True\<rparr>
                else v0);
          v2 = (if length (Status_Errors st) > 0
                then v1\<lparr>logged := logged v1 @ [Errorf_Errors (Status_Errors st)]\<rparr>
                else v1)
      in if Exiting st then
           (True, v2\<lparr>err := Some (exiting_status st haStderrPath)\<rparr>)
         else if Running st then
           (let v3 = v2\<lparr>receivedRunningEvent := True\<rparr> in
            if Degraded st then
              (True, v3\<lparr>logged := logged v3 @ [Warnf_DEGRADED haStderrPath],
                         err := Some (degraded_status st)\<rparr>)
            else
              (True, v3\<lparr>logged := logged v3 @ [Infof_READY (LimactlShellCmd instName)],
                         err := None\<rparr>))
         else (False, v2))"

text \<open>
  Modelled from the spec: \<^verbatim>\<open>hostagentapi.WatchEvents\<close>, which \<^verbatim>\<open>watchHostAgentEvents\<close> calls
  at line 175, is not part of the sources at hand. By the spec the watcher reads the
  lifecycle records of the log in order and hands each to the callback; a terminal event
  (the callback returns true) ends the watch, and no later record is processed. The
  watch also ends when the deadline elapses or the stream ends: \<open>ended\<close> is what the
  watcher returns then (nil or an error).
\<close>

fun WatchEvents ::
  "hostagentapi_Event list \<Rightarrow> start_error option
     \<Rightarrow> (hostagentapi_Event \<Rightarrow> watch_vars \<Rightarrow> bool \<times> watch_vars) \<Rightarrow> watch_vars
     \<Rightarrow> start_error option \<times> watch_vars"
where
  "WatchEvents [] ended callback v = (ended, v)"
| "WatchEvents (ev # evs) ended callback v =
     (case callback ev v of (stop, v') \<Rightarrow>
        if stop then (None, v') else WatchEvents evs ended callback v')"

text \<open>
  \<^verbatim>\<open>watchHostAgentEvents\<close> (lines 139-188): the returned error (\<open>None\<close> is nil) and the
  lines logged.
\<close>

definition watchHostAgentEvents ::
  "string \<Rightarrow> string \<Rightarrow> hostagentapi_Event list \<Rightarrow> start_error option
     \<Rightarrow> start_error option \<times> log_line list"
where
  "watchHostAgentEvents instName haStderrPath evs ended =
     (case WatchEvents evs ended (onEvent instName haStderrPath)
             \<lparr>printedSSHLocalPort = False, receivedRunningEvent = False,
              err = None, logged = []\<rparr> of
        (xerr, v) \<Rightarrow>
          (if xerr \<noteq> None then xerr
           else if err v \<noteq> None then err v
           else if \<not> receivedRunningEvent v then Some did_not_receive_running
           else None,
           logged v))"

text \<open>
  \<^verbatim>\<open>waitHostAgentStart\<close> (lines 125-137) loops without a bound of its own. Each round
  reads whether \<^verbatim>\<open>os.Stat\<close> fails with \<^verbatim>\<open>ErrNotExist\<close> and whether the clock is past the
  deadline; the rounds are given as a list, and \<open>None\<close> is a loop still running when the
  list ends.
\<close>

fun waitHostAgentStart ::
  "string \<Rightarrow> string \<Rightarrow> (bool \<times> bool) list \<Rightarrow> start_error option option"
where
  "waitHostAgentStart haPIDPath haStderrPath [] = None"
| "waitHostAgentStart haPIDPath haStderrPath ((isNotExist, afterDeadline) # rounds) =
     (if \<not> isNotExist then Some None
      else if afterDeadline then Some (Some (did_not_start_up haPIDPath haStderrPath))
      else waitHostAgentStart haPIDPath haStderrPath rounds)"

text \<open>
  What \<^verbatim>\<open>Start\<close> finds outside itself: the instance, the three paths it joins from the
  instance directory, the error of each external call in order (\<open>None\<close> is nil), the
  rounds of the start-up wait, which channel the \<^verbatim>\<open>select\<close> at line 114 receives from
  first, the events and the end of the watch, and the error of \<^verbatim>\<open>haCmd.Wait()\<close>.
\<close>

datatype select_case = from_watchErrCh | from_waitErrCh

record start_env =
  inst_Name :: string
  haPIDPath :: string
  haStdoutPath :: string
  haStderrPath :: string
  pidfile_isNotExist :: bool
  LoadYAML_err :: "start_error option"
  samba_InitConfig_err :: "start_error option"
  cidata_GenerateISO9660_err :: "start_error option"
  qemu_EnsureDisk_err :: "start_error option"
  os_Executable_err :: "start_error option"
  RemoveAll_stdout_err :: "start_error option"
  RemoveAll_stderr_err :: "start_error option"
  Create_stdout_err :: "start_error option"
  Create_stderr_err :: "start_error option"
  haCmd_Start_err :: "start_error option"
  wait_rounds :: "(bool \<times> bool) list"
  select_first :: select_case
  watched_events :: "hostagentapi_Event list"
  watch_ended :: "start_error option"
  haCmd_Wait_err :: "start_error option"

text \<open>\<^verbatim>\<open>ensureDisk\<close> (lines 22-36).\<close>

definition ensureDisk :: "start_env \<Rightarrow> start_error option" where
  "ensureDisk env =
     (if cidata_GenerateISO9660_err env \<noteq> None then cidata_GenerateISO9660_err env
      else if qemu_EnsureDisk_err env \<noteq> None then qemu_EnsureDisk_err env
      else None)"

text \<open>Lines 39-97 of \<^verbatim>\<open>Start\<close>: everything up to and including \<^verbatim>\<open>haCmd.Start()\<close>.\<close>

definition Start_spawn :: "start_env \<Rightarrow> start_error option" where
  "Start_spawn env =
     (if \<not> pidfile_isNotExist env then Some (seems_running (inst_Name env) (haPIDPath env))
      else if LoadYAML_err env \<noteq> None then LoadYAML_err env
      else if samba_InitConfig_err env \<noteq> None
        then map_option failed_to_initialize_samba (samba_InitConfig_err env)
      else if ensureDisk env \<noteq> None then ensureDisk env
      else if os_Executable_err env \<noteq> None then os_Executable_err env
      else if RemoveAll_stdout_err env \<noteq> None then RemoveAll_stdout_err env
      else if RemoveAll_stderr_err env \<noteq> None then RemoveAll_stderr_err env
      else if Create_stdout_err env \<noteq> None then Create_stdout_err env
      else if Create_stderr_err env \<noteq> None then Create_stderr_err env
      else if haCmd_Start_err env \<noteq> None then haCmd_Start_err env
      else None)"

text \<open>
  Lines 103-122 of \<^verbatim>\<open>Start\<close>: the two goroutines and the \<^verbatim>\<open>select\<close>.
  \<^verbatim>\<open>fmt.Errorf("host agent process has exited: %w", waitErr)\<close> is an error whatever
  \<^verbatim>\<open>waitErr\<close> is.
\<close>

definition Start_select :: "start_env \<Rightarrow> start_error option" where
  "Start_select env =
     (case select_first env of
        from_watchErrCh \<Rightarrow>
          (let watchErr = fst (watchHostAgentEvents (inst_Name env) (haStderrPath env)
                                 (watched_events env) (watch_ended env))
           in watchErr)
      | from_waitErrCh \<Rightarrow>
          (let waitErr = haCmd_Wait_err env
           in Some (host_agent_process_has_exited waitErr)))"

text \<open>
  \<^verbatim>\<open>Start\<close> (lines 38-123). \<open>Some r\<close> is a call that returns \<open>r\<close> (\<open>Some None\<close> returns
  nil); \<open>None\<close> is a call still in the start-up wait when the given rounds end.
\<close>

definition Start :: "start_env \<Rightarrow> start_error option option" where
  "Start env =
     (if Start_spawn env \<noteq> None then Some (Start_spawn env)
      else case waitHostAgentStart (haPIDPath env) (haStderrPath env) (wait_rounds env) of
        None \<Rightarrow> None
      | Some (Some e) \<Rightarrow> Some (Some e)
      | Some None \<Rightarrow> Some (Start_select env))"

section \<open>Sample inputs\<close>

text \<open>
  A guest with one listening TCP socket on port 8080, one established connection, one
  entry of another kind, three packet-filter rules (port 8080 and twice port 9090) and
  two local sockets, one of them in a state that is not reported.
\<close>

definition sample_world :: world where
  "sample_world =
     \<lparr>NativeEndian_isBigEndian = False,
      procnettcp_ParseFiles = Inr
        [\<lparr>tcp_Kind = TCP, tcp_State = TCPListen, tcp_IP = [0, 0, 0, 0], tcp_Port = 8080\<rparr>,
         \<lparr>tcp_Kind = TCP, tcp_State = OtherTCPState, tcp_IP = [10, 0, 0, 2], tcp_Port = 22\<rparr>,
         \<lparr>tcp_Kind = OtherKind, tcp_State = TCPListen, tcp_IP = [0, 0, 0, 0], tcp_Port = 53\<rparr>],
      iptables_GetPorts = Inr
        [\<lparr>ipt_IP = [127, 0, 0, 1], ipt_Port = 8080\<rparr>,
         \<lparr>ipt_IP = [127, 0, 0, 1], ipt_Port = 9090\<rparr>,
         \<lparr>ipt_IP = [10, 0, 0, 2], ipt_Port = 9090\<rparr>],
      procnetunix_ParseFile = Inr
        [\<lparr>unix_Path = ''/run/a.sock'', unix_State = StateUnconnected\<rparr>,
         \<lparr>unix_Path = ''/run/b.sock'', unix_State = OtherUnixState\<rparr>],
      time_Now = 1000,
      rangePorts = rev,
      rangeSockets = rev\<rparr>"

definition sample_agent :: agent where
  "sample_agent = \<lparr>worthCheckingIPTables = True, latestIPTables = []\<rparr>"

text \<open>What the sample guest reports when nothing fails.\<close>

definition sample_state :: eventState where
  "sample_state =
     \<lparr>ports = [\<lparr>IP = [0, 0, 0, 0], Port = 8080\<rparr>, \<lparr>IP = [127, 0, 0, 1], Port = 9090\<rparr>],
      sockets = [''/run/a.sock'']\<rparr>"

text \<open>The same guest on a big-endian host, and with each of the three reads failing.\<close>

definition big_endian_world :: world where
  "big_endian_world = sample_world\<lparr>NativeEndian_isBigEndian := True\<rparr>"

definition tcp_failing_world :: world where
  "tcp_failing_world =
     sample_world\<lparr>procnettcp_ParseFiles := Inl (errors_New ''open /proc/net/tcp: permission denied'')\<rparr>"

definition iptables_failing_world :: world where
  "iptables_failing_world =
     sample_world\<lparr>iptables_GetPorts := Inl (errors_New ''iptables: exit status 1'')\<rparr>"

definition unix_failing_world :: world where
  "unix_failing_world =
     sample_world\<lparr>procnetunix_ParseFile := Inl (errors_New ''open /proc/net/unix: permission denied'')\<rparr>"

text \<open>
  Lifecycle events of a host agent: the SSH port is known, the VM runs, the VM runs
  degraded, the agent exits.
\<close>

definition event_ssh_port :: hostagentapi_Event where
  "event_ssh_port =
     \<lparr>Event_Status = \<lparr>SSHLocalPort = 60022, Running = False, Degraded = False,
                       Exiting = False, Status_Errors = []\<rparr>\<rparr>"

definition event_running :: hostagentapi_Event where
  "event_running =
     \<lparr>Event_Status = \<lparr>SSHLocalPort = 60022, Running = True, Degraded = False,
                       Exiting = False, Status_Errors = []\<rparr>\<rparr>"

definition event_degraded :: hostagentapi_Event where
  "event_degraded =
     \<lparr>Event_Status = \<lparr>SSHLocalPort = 60022, Running = True, Degraded = True,
                       Exiting = False, Status_Errors = [''mount failed'']\<rparr>\<rparr>"

definition event_exiting :: hostagentapi_Event where
  "event_exiting =
     \<lparr>Event_Status = \<lparr>SSHLocalPort = 60022, Running = False, Degraded = False,
                       Exiting = True, Status_Errors = []\<rparr>\<rparr>"

text \<open>
  A start in which every step up to the spawn succeeds, the pidfile appears in the second
  round of the wait, and the host agent process then exits with status zero
  (\<^verbatim>\<open>haCmd.Wait()\<close> returns nil) before the watcher has a result.
\<close>

definition sample_start :: start_env where
  "sample_start =
     \<lparr>inst_Name = ''default'',
      haPIDPath = ''/lima/default/ha.pid'',
      haStdoutPath = ''/lima/default/ha.stdout.log'',
      haStderrPath = ''/lima/default/ha.stderr.log'',
      pidfile_isNotExist = True,
      LoadYAML_err = None,
      samba_InitConfig_err = None,
      cidata_GenerateISO9660_err = None,
      qemu_EnsureDisk_err = None,
      os_Executable_err = None,
      RemoveAll_stdout_err = None,
      RemoveAll_stderr_err = None,
      Create_stdout_err = None,
      Create_stderr_err = None,
      haCmd_Start_err = None,
      wait_rounds = [(True, False), (False, False)],
      select_first = from_waitErrCh,
      watched_events = [event_ssh_port],
      watch_ended = None,
      haCmd_Wait_err = None\<rparr>"

section \<open>Properties of the diff functions\<close>

lemma comparePorts_old_mRaw_dom:
  "fst ` set (fst (comparePorts_old S old (mRaw, mSE))) = fst ` set mRaw \<union> S ` set old"
  by (induction old arbitrary: mRaw mSE) (auto simp: AList.dom_update)

lemma comparePorts_old_mRaw_Some:
  "map_of (fst (comparePorts_old S old (mRaw, mSE))) k = Some x \<Longrightarrow>
     (x \<in> set old \<and> S x = k) \<or> map_of mRaw k = Some x"
  by (induction old arbitrary: mRaw mSE) (fastforce simp: AList.update_conv' split: if_splits)+

lemma comparePorts_old_mStillExist:
  "map_of (snd (comparePorts_old S old (mRaw, mSE))) k =
     (if k \<in> S ` set old then Some False else map_of mSE k)"
  by (induction old arbitrary: mRaw mSE) (auto simp: AList.update_conv')

lemma comparePorts_old_distinct:
  "distinct (map fst mSE) \<Longrightarrow> distinct (map fst (snd (comparePorts_old S old (mRaw, mSE))))"
  by (induction old arbitrary: mRaw mSE) (auto simp: AList.distinct_update)

lemma comparePorts_new_added:
  "fst (comparePorts_new S mRaw neww (added, mSE)) =
     added @ filter (\<lambda>f. map_of mRaw (S f) = None) neww"
  by (induction neww arbitrary: added mSE) auto

lemma comparePorts_new_mStillExist:
  "map_of (snd (comparePorts_new S mRaw neww (added, mSE))) k =
     (if k \<in> S ` set neww then Some True else map_of mSE k)"
  by (induction neww arbitrary: added mSE) (auto simp: AList.update_conv')

lemma comparePorts_new_distinct:
  "distinct (map fst mSE) \<Longrightarrow>
     distinct (map fst (snd (comparePorts_new S mRaw neww (added, mSE))))"
  by (induction neww arbitrary: added mSE) (auto simp: AList.distinct_update)

lemma range_mStillExist_append:
  "range_mStillExist mRaw es removed =
     removed @ concat (map (\<lambda>(k, stillExist).
        if stillExist then [] else (case map_of mRaw k of Some x \<Rightarrow> [x] | None \<Rightarrow> [])) es)"
  by (induction es arbitrary: removed) (auto split: option.splits)

lemma set_range_mStillExist:
  "set (range_mStillExist mRaw es []) =
     {x. \<exists>k. (k, False) \<in> set es \<and> map_of mRaw k = Some x}"
proof -
  have "x \<in> set (range_mStillExist mRaw es []) \<longleftrightarrow>
        (\<exists>k. (k, False) \<in> set es \<and> map_of mRaw k = Some x)" for x
  proof (induction es)
    case Nil
    show ?case by (simp add: range_mStillExist_append)
  next
    case (Cons e es)
    obtain k b where e: "e = (k, b)" by (cases e)
    show ?case
    proof (cases b)
      case True
      with Cons e show ?thesis by (simp add: range_mStillExist_append)
    next
      case False
      with Cons e show ?thesis
        by (cases "map_of mRaw k") (auto simp: range_mStillExist_append)
    qed
  qed
  then show ?thesis by blast
qed

lemma visit_entries:
  assumes "mset (visit m) = mset m" and "distinct (map fst m)"
  shows "(k, b) \<in> set (visit m) \<longleftrightarrow> map_of m k = Some b"
proof -
  have "set (visit m) = set m" using assms(1) by (rule mset_eq_setD)
  then show ?thesis using assms(2) by (auto dest: map_of_SomeD)
qed

lemma comparePorts_fst:
  "fst (comparePorts S visit old neww) = filter (\<lambda>f. S f \<notin> S ` set old) neww"
proof -
  have dom: "fst ` set (fst (comparePorts_old S old ([], []))) = S ` set old"
    by (simp add: comparePorts_old_mRaw_dom)
  have "map_of (fst (comparePorts_old S old ([], []))) k = None \<longleftrightarrow> k \<notin> S ` set old" for k
    unfolding map_of_eq_None_iff dom ..
  then show ?thesis
    by (simp add: comparePorts_def split_def comparePorts_new_added)
qed

lemma comparePorts_snd:
  assumes "\<And>m. mset (visit m) = mset m"
  shows "set (snd (comparePorts S visit old neww)) =
     {x. \<exists>k. k \<in> S ` set old - S ` set neww \<and>
            map_of (fst (comparePorts_old S old ([], []))) k = Some x}"
proof -
  let ?mRaw = "fst (comparePorts_old S old ([], []))"
  let ?m0 = "snd (comparePorts_old S old ([], []))"
  let ?m = "snd (comparePorts_new S ?mRaw neww ([], ?m0))"
  have d: "distinct (map fst ?m)"
    by (simp add: comparePorts_new_distinct comparePorts_old_distinct)
  have m: "map_of ?m k = Some False \<longleftrightarrow> k \<in> S ` set old - S ` set neww" for k
    by (simp add: comparePorts_new_mStillExist comparePorts_old_mStillExist)
  have "(k, False) \<in> set (visit ?m) \<longleftrightarrow> k \<in> S ` set old - S ` set neww" for k
    using visit_entries [of visit ?m k False] assms d m by simp
  then show ?thesis
    by (simp add: comparePorts_def split_def set_range_mStillExist)
qed

lemma comparePorts_same:
  assumes "\<And>m. mset (visit m) = mset m"
  shows "comparePorts S visit xs xs = ([], [])"
proof -
  have "fst (comparePorts S visit xs xs) = []"
    by (simp add: comparePorts_fst)
  moreover have "set (snd (comparePorts S visit xs xs)) = {}"
    using comparePorts_snd [of visit S xs xs, OF assms] by simp
  ultimately show ?thesis by (simp add: prod_eq_iff)
qed

lemma range_mStillExist_empty_mRaw:
  "range_mStillExist [] es removed = removed"
  by (induction es arbitrary: removed) auto

lemma compareSockets_removed_Nil:
  "snd (compareSockets visit old neww) = []"
  by (simp add: compareSockets_def split_def range_mStillExist_empty_mRaw)

lemma compareSockets_old_dom:
  "fst ` set (compareSockets_old old m) = fst ` set m \<union> set old"
  by (induction old arbitrary: m) (auto simp: AList.dom_update)

lemma compareSockets_new_known:
  "set neww \<subseteq> fst ` set m \<Longrightarrow> fst (compareSockets_new neww (added, m)) = added"
proof (induction neww arbitrary: added m)
  case Nil
  show ?case by simp
next
  case (Cons k neww)
  from Cons.prems have k: "k \<in> fst ` set m" by simp
  then have "map_of m k \<noteq> None" by (simp add: map_of_eq_None_iff)
  moreover have "set neww \<subseteq> fst ` set (AList.update k True m)"
    using Cons.prems by (auto simp: AList.dom_update)
  ultimately show ?case using Cons.IH by simp
qed

lemma compareSockets_same:
  "compareSockets visit xs xs = ([], [])"
proof -
  have "set xs \<subseteq> fst ` set (compareSockets_old xs [])"
    by (simp add: compareSockets_old_dom)
  then have "fst (compareSockets_new xs ([], compareSockets_old xs [])) = []"
    by (rule compareSockets_new_known)
  then show ?thesis
    by (simp add: compareSockets_def split_def range_mStillExist_empty_mRaw)
qed

text \<open>
  C1. Socket diff correctness, \<open>removed = old - new\<close>: the code at the input
  \<open>old = ["/run/a.sock"]\<close>, \<open>new = []\<close>. The socket has disappeared, and
  \<^verbatim>\<open>compareSockets\<close> reports nothing as removed, whatever the order of the map
  iteration: \<^verbatim>\<open>mRaw\<close> is empty, so the lookup \<^verbatim>\<open>mRaw[k]\<close> never succeeds
  (\<open>compareSockets_removed_Nil\<close>: it reports nothing as removed on any input).
\<close>

theorem compareSockets_loses_removed:
  "compareSockets visit [''/run/a.sock''] [] = ([], [])"
  by (simp add: compareSockets_def range_mStillExist_empty_mRaw)

text \<open>
  C3. Port diff correctness. For every key function \<open>String\<close>, every order in which the
  runtime visits the map and every pair of port lists: \<open>added\<close> is the list of the
  endpoints of \<open>neww\<close> whose key is not a key of \<open>old\<close>, in the order of \<open>neww\<close>; the keys
  of \<open>removed\<close> are the keys of \<open>old\<close> that are not keys of \<open>neww\<close>, and every removed
  endpoint is an endpoint of \<open>old\<close>; no key is both added and removed. Where the key
  function tells the endpoints at hand apart, \<open>added = neww - old\<close> and
  \<open>removed = old - neww\<close> as sets of endpoints.
\<close>

theorem comparePorts_diff:
  assumes "\<And>m. mset (visit m) = mset m"
  shows "fst (comparePorts String visit old neww) =
           filter (\<lambda>f. String f \<notin> String ` set old) neww
       \<and> String ` set (snd (comparePorts String visit old neww)) =
           String ` set old - String ` set neww
       \<and> set (snd (comparePorts String visit old neww)) \<subseteq> set old
       \<and> String ` set (fst (comparePorts String visit old neww)) \<inter>
           String ` set (snd (comparePorts String visit old neww)) = {}
       \<and> (inj_on String (set old \<union> set neww) \<longrightarrow>
            set (fst (comparePorts String visit old neww)) = set neww - set old \<and>
            set (snd (comparePorts String visit old neww)) = set old - set neww)"
proof -
  let ?mRaw = "fst (comparePorts_old String old ([], []))"
  let ?added = "fst (comparePorts String visit old neww)"
  let ?removed = "snd (comparePorts String visit old neww)"
  have added: "?added = filter (\<lambda>f. String f \<notin> String ` set old) neww"
    by (rule comparePorts_fst)
  have removed: "set ?removed =
     {x. \<exists>k. k \<in> String ` set old - String ` set neww \<and> map_of ?mRaw k = Some x}"
    using assms by (rule comparePorts_snd)
  have raw: "map_of ?mRaw k = Some x \<Longrightarrow> x \<in> set old \<and> String x = k" for k x
    using comparePorts_old_mRaw_Some [of String old "[]" "[]" k x] by simp
  have dom: "k \<in> String ` set old \<Longrightarrow> \<exists>x. map_of ?mRaw k = Some x" for k
  proof -
    assume "k \<in> String ` set old"
    then have "k \<in> fst ` set ?mRaw" by (simp add: comparePorts_old_mRaw_dom)
    then have "map_of ?mRaw k \<noteq> None" by (simp add: map_of_eq_None_iff)
    then show ?thesis by blast
  qed
  have keys: "String ` set ?removed = String ` set old - String ` set neww"
  proof (rule set_eqI)
    fix k
    show "k \<in> String ` set ?removed \<longleftrightarrow> k \<in> String ` set old - String ` set neww"
    proof
      assume "k \<in> String ` set ?removed"
      then obtain x where "x \<in> set ?removed" and "k = String x" by blast
      then obtain k' where "k' \<in> String ` set old - String ` set neww"
          and "map_of ?mRaw k' = Some x" unfolding removed by blast
      moreover from this have "String x = k'" using raw by blast
      ultimately show "k \<in> String ` set old - String ` set neww"
        using \<open>k = String x\<close> by simp
    next
      assume k: "k \<in> String ` set old - String ` set neww"
      then obtain x where x: "map_of ?mRaw k = Some x" using dom by blast
      then have "x \<in> set ?removed" unfolding removed using k by blast
      moreover have "String x = k" using raw x by blast
      ultimately show "k \<in> String ` set ?removed" by blast
    qed
  qed
  have sub: "set ?removed \<subseteq> set old"
    unfolding removed using raw by blast
  have disj: "String ` set ?added \<inter> String ` set ?removed = {}"
    unfolding keys unfolding added by auto
  have inj: "set ?added = set neww - set old \<and> set ?removed = set old - set neww"
    if i: "inj_on String (set old \<union> set neww)"
  proof
    show "set ?added = set neww - set old"
      unfolding added using i by (auto simp: inj_on_def)
    show "set ?removed = set old - set neww"
    proof
      show "set ?removed \<subseteq> set old - set neww"
        using sub keys by blast
      show "set old - set neww \<subseteq> set ?removed"
      proof
        fix x assume x: "x \<in> set old - set neww"
        then have "String x \<in> String ` set old - String ` set neww"
          using i by (auto simp: inj_on_def)
        then obtain y where y: "y \<in> set ?removed" "String y = String x"
          unfolding keys [symmetric] by auto
        then have "y \<in> set old" using sub by blast
        then have "y = x" using i x y(2) by (auto simp: inj_on_def)
        then show "x \<in> set ?removed" using y(1) by simp
      qed
    qed
  qed
  show ?thesis using added keys sub disj inj by blast
qed

theorem comparePorts_diff_witness:
  "(\<forall>m :: bool gomap. mset (rev m) = mset m)
   \<and> inj_on IPv4_String
       (set [\<lparr>IP = [127, 0, 0, 1], Port = 80\<rparr>] \<union>
        set [\<lparr>IP = [127, 0, 0, 1], Port = 80\<rparr>, \<lparr>IP = [127, 0, 0, 1], Port = 443\<rparr>])
   \<and> fst (comparePorts IPv4_String rev [\<lparr>IP = [127, 0, 0, 1], Port = 80\<rparr>]
          [\<lparr>IP = [127, 0, 0, 1], Port = 80\<rparr>, \<lparr>IP = [127, 0, 0, 1], Port = 443\<rparr>])
       = [\<lparr>IP = [127, 0, 0, 1], Port = 443\<rparr>]
   \<and> set (snd (comparePorts IPv4_String rev [\<lparr>IP = [127, 0, 0, 1], Port = 80\<rparr>]
          [\<lparr>IP = [127, 0, 0, 1], Port = 80\<rparr>, \<lparr>IP = [127, 0, 0, 1], Port = 443\<rparr>]))
       = {}"
proof -
  let ?p80 = "\<lparr>IP = [127, 0, 0, 1], Port = 80\<rparr>"
  let ?p443 = "\<lparr>IP = [127, 0, 0, 1], Port = 443\<rparr>"
  have perm: "mset (rev m) = mset m" for m :: "bool gomap" by simp
  have k80: "IPv4_String ?p80 = ''127.0.0.1:80''" by code_simp
  have k443: "IPv4_String ?p443 = ''127.0.0.1:443''" by code_simp
  have inj: "inj_on IPv4_String (set [?p80] \<union> set [?p80, ?p443])"
    unfolding inj_on_def by (auto simp: k80 k443)
  have flt: "filter (\<lambda>f. IPv4_String f \<notin> IPv4_String ` set [?p80]) [?p80, ?p443] = [?p443]"
    by (simp add: k80 k443)
  from comparePorts_diff [of rev IPv4_String "[?p80]" "[?p80, ?p443]", OF perm] inj flt
  show ?thesis using perm by auto
qed

section \<open>Properties of the sampling\<close>

lemma LocalPorts_found_iff:
  "LocalPorts_found res p found \<longleftrightarrow> found \<or> p \<in> Port ` set res"
  by (induction res arbitrary: found) auto

lemma LocalPorts_merge_extra:
  "\<exists>extra. LocalPorts_merge ipts res = res @ extra
     \<and> distinct (map Port extra)
     \<and> Port ` set extra \<inter> Port ` set res = {}
     \<and> set extra \<subseteq> (\<lambda>ipt. \<lparr>IP = ipt_IP ipt, Port = ipt_Port ipt\<rparr>) ` set ipts
     \<and> ipt_Port ` set ipts \<subseteq> Port ` set (res @ extra)"
proof (induction ipts arbitrary: res)
  case Nil
  show ?case by simp
next
  case (Cons ipt ipts)
  let ?x = "\<lparr>IP = ipt_IP ipt, Port = ipt_Port ipt\<rparr>"
  show ?case
  proof (cases "ipt_Port ipt \<in> Port ` set res")
    case True
    from Cons.IH [of res] obtain extra where e:
      "LocalPorts_merge ipts res = res @ extra" "distinct (map Port extra)"
      "Port ` set extra \<inter> Port ` set res = {}"
      "set extra \<subseteq> (\<lambda>ipt. \<lparr>IP = ipt_IP ipt, Port = ipt_Port ipt\<rparr>) ` set ipts"
      "ipt_Port ` set ipts \<subseteq> Port ` set (res @ extra)" by blast
    have "LocalPorts_merge (ipt # ipts) res = res @ extra"
      using True e(1) by (simp add: LocalPorts_found_iff)
    moreover have "ipt_Port ` set (ipt # ipts) \<subseteq> Port ` set (res @ extra)"
      using True e(5) by auto
    moreover have "set extra \<subseteq> (\<lambda>ipt. \<lparr>IP = ipt_IP ipt, Port = ipt_Port ipt\<rparr>) ` set (ipt # ipts)"
      using e(4) by auto
    ultimately show ?thesis using e(2,3) by blast
  next
    case False
    from Cons.IH [of "res @ [?x]"] obtain extra where e:
      "LocalPorts_merge ipts (res @ [?x]) = (res @ [?x]) @ extra" "distinct (map Port extra)"
      "Port ` set extra \<inter> Port ` set (res @ [?x]) = {}"
      "set extra \<subseteq> (\<lambda>ipt. \<lparr>IP = ipt_IP ipt, Port = ipt_Port ipt\<rparr>) ` set ipts"
      "ipt_Port ` set ipts \<subseteq> Port ` set ((res @ [?x]) @ extra)" by blast
    have 1: "LocalPorts_merge (ipt # ipts) res = res @ (?x # extra)"
      using False e(1) by (simp add: LocalPorts_found_iff)
    have 2: "distinct (map Port (?x # extra))"
      using e(2,3) by auto
    have 3: "Port ` set (?x # extra) \<inter> Port ` set res = {}"
      using False e(3) by auto
    have 4: "set (?x # extra) \<subseteq> (\<lambda>ipt. \<lparr>IP = ipt_IP ipt, Port = ipt_Port ipt\<rparr>) ` set (ipt # ipts)"
      using e(4) by auto
    have 5: "ipt_Port ` set (ipt # ipts) \<subseteq> Port ` set (res @ (?x # extra))"
      using e(5) by auto
    show ?thesis using 1 2 3 4 5 by blast
  qed
qed

lemma LocalPorts_calls:
  "Call_procnetunix_ParseFile \<notin> set (snd (snd (LocalPorts w a)))"
  by (simp add: LocalPorts_def Let_def split: sum.splits)

lemma sample_LocalPorts:
  "LocalPorts sample_world sample_agent =
     ((ports sample_state, None),
      sample_agent\<lparr>latestIPTables :=
        [\<lparr>ipt_IP = [127, 0, 0, 1], ipt_Port = 8080\<rparr>,
         \<lparr>ipt_IP = [127, 0, 0, 1], ipt_Port = 9090\<rparr>,
         \<lparr>ipt_IP = [10, 0, 0, 2], ipt_Port = 9090\<rparr>]\<rparr>,
      [Call_procnettcp_ParseFiles, Call_iptables_GetPorts])"
  by (simp add: LocalPorts_def sample_world_def sample_agent_def sample_state_def)

lemma sample_LocalSockets:
  "LocalSockets sample_world = ((sockets sample_state, None), [Call_procnetunix_ParseFile])"
  by (simp add: LocalSockets_def sample_world_def sample_state_def)

lemma iptables_failing_LocalPorts:
  "LocalPorts iptables_failing_world sample_agent =
     (([\<lparr>IP = [0, 0, 0, 0], Port = 8080\<rparr>], Some (errors_New ''iptables: exit status 1'')),
      sample_agent, [Call_procnettcp_ParseFiles, Call_iptables_GetPorts])"
  by (simp add: LocalPorts_def iptables_failing_world_def sample_world_def sample_agent_def)

lemma tcp_failing_LocalPorts:
  "LocalPorts tcp_failing_world sample_agent =
     (([], Some (errors_New ''open /proc/net/tcp: permission denied'')),
      sample_agent, [Call_procnettcp_ParseFiles])"
  by (simp add: LocalPorts_def tcp_failing_world_def sample_world_def sample_agent_def)

lemma unix_failing_LocalPorts:
  "LocalPorts unix_failing_world sample_agent =
     ((ports sample_state, None),
      sample_agent\<lparr>latestIPTables :=
        [\<lparr>ipt_IP = [127, 0, 0, 1], ipt_Port = 8080\<rparr>,
         \<lparr>ipt_IP = [127, 0, 0, 1], ipt_Port = 9090\<rparr>,
         \<lparr>ipt_IP = [10, 0, 0, 2], ipt_Port = 9090\<rparr>]\<rparr>,
      [Call_procnettcp_ParseFiles, Call_iptables_GetPorts])"
  by (simp add: LocalPorts_def unix_failing_world_def sample_world_def sample_agent_def
      sample_state_def)

lemma unix_failing_LocalSockets:
  "LocalSockets unix_failing_world =
     (([], Some (errors_New ''open /proc/net/unix: permission denied'')),
      [Call_procnetunix_ParseFile])"
  by (simp add: LocalSockets_def unix_failing_world_def sample_world_def)

text \<open>
  C6. Packet-filter merge dedup. Whenever \<^verbatim>\<open>LocalPorts\<close> returns without an error, its
  result is the direct-read list (the listening entries of the connection tables)
  followed by entries taken from the packet-filter list in use (fetched in this call, or
  the cached one); none of these carries a port number of the direct-read list, no two
  of them carry the same port number, and every port number of the packet-filter list
  occurs in the result.
\<close>

theorem LocalPorts_packet_filter_dedup:
  assumes "LocalPorts w a = ((res, None), a', calls)"
  shows "\<exists>tcpParsed ipts extra.
           procnettcp_ParseFiles w = Inr tcpParsed
         \<and> (if worthCheckingIPTables a then iptables_GetPorts w = Inr ipts
            else ipts = latestIPTables a)
         \<and> res = LocalPorts_listening tcpParsed [] @ extra
         \<and> distinct (map Port extra)
         \<and> Port ` set extra \<inter> Port ` set (LocalPorts_listening tcpParsed []) = {}
         \<and> set extra \<subseteq> (\<lambda>ipt. \<lparr>IP = ipt_IP ipt, Port = ipt_Port ipt\<rparr>) ` set ipts
         \<and> ipt_Port ` set ipts \<subseteq> Port ` set res"
proof -
  from assms obtain tcpParsed where tcp: "procnettcp_ParseFiles w = Inr tcpParsed"
    and le: "\<not> NativeEndian_isBigEndian w"
    by (cases "procnettcp_ParseFiles w") (auto simp: LocalPorts_def split: if_splits)
  let ?direct = "LocalPorts_listening tcpParsed []"
  from assms tcp le obtain ipts where
    ipts: "if worthCheckingIPTables a then iptables_GetPorts w = Inr ipts
           else ipts = latestIPTables a"
    and res: "res = LocalPorts_merge ipts ?direct"
    by (cases "iptables_GetPorts w") (auto simp: LocalPorts_def Let_def split: if_splits)
  from LocalPorts_merge_extra [of ipts ?direct] res obtain extra where
    "res = ?direct @ extra" "distinct (map Port extra)"
    "Port ` set extra \<inter> Port ` set ?direct = {}"
    "set extra \<subseteq> (\<lambda>ipt. \<lparr>IP = ipt_IP ipt, Port = ipt_Port ipt\<rparr>) ` set ipts"
    "ipt_Port ` set ipts \<subseteq> Port ` set res" by auto
  with tcp ipts show ?thesis by blast
qed

theorem LocalPorts_packet_filter_dedup_witness:
  "LocalPorts sample_world sample_agent =
     ((ports sample_state, None),
      sample_agent\<lparr>latestIPTables :=
        [\<lparr>ipt_IP = [127, 0, 0, 1], ipt_Port = 8080\<rparr>,
         \<lparr>ipt_IP = [127, 0, 0, 1], ipt_Port = 9090\<rparr>,
         \<lparr>ipt_IP = [10, 0, 0, 2], ipt_Port = 9090\<rparr>]\<rparr>,
      [Call_procnettcp_ParseFiles, Call_iptables_GetPorts])
   \<and> (\<exists>tcpParsed ipts extra.
           procnettcp_ParseFiles sample_world = Inr tcpParsed
         \<and> (if worthCheckingIPTables sample_agent
            then iptables_GetPorts sample_world = Inr ipts
            else ipts = latestIPTables sample_agent)
         \<and> ports sample_state = LocalPorts_listening tcpParsed [] @ extra
         \<and> distinct (map Port extra)
         \<and> Port ` set extra \<inter> Port ` set (LocalPorts_listening tcpParsed []) = {}
         \<and> set extra \<subseteq> (\<lambda>ipt. \<lparr>IP = ipt_IP ipt, Port = ipt_Port ipt\<rparr>) ` set ipts
         \<and> ipt_Port ` set ipts \<subseteq> Port ` set (ports sample_state))"
  using sample_LocalPorts LocalPorts_packet_filter_dedup [OF sample_LocalPorts] by blast

text \<open>
  C8. Big-endian rejection. On a big-endian host \<^verbatim>\<open>LocalPorts\<close> returns the error and a
  nil list, leaves the agent as it is, and makes no external read: the connection tables
  are not parsed.
\<close>

theorem LocalPorts_big_endian:
  assumes "NativeEndian_isBigEndian w"
  shows "LocalPorts w a = (([], Some bigEndianError), a, [])"
  using assms by (simp add: LocalPorts_def)

theorem LocalPorts_big_endian_witness:
  "NativeEndian_isBigEndian big_endian_world
   \<and> LocalPorts big_endian_world sample_agent = (([], Some bigEndianError), sample_agent, [])"
proof -
  have h: "NativeEndian_isBigEndian big_endian_world"
    by (simp add: big_endian_world_def)
  show ?thesis using h LocalPorts_big_endian [OF h] by blast
qed

section \<open>Properties of \<^verbatim>\<open>collectEvent\<close> and \<^verbatim>\<open>Events\<close>\<close>

text \<open>
  C10. Port-failure short-circuit. When \<^verbatim>\<open>LocalPorts\<close> returns an error,
  \<^verbatim>\<open>collectEvent\<close> returns an event whose four diff lists are empty and whose error list
  is exactly the message of that error; the socket table is not read; the socket list of
  the state it returns is the previous one.
\<close>

theorem collectEvent_port_failure:
  assumes "LocalPorts w a = ((ps, Some e), a', calls)"
  shows "collectEvent String w a st =
           (\<lparr>Time = time_Now w, LocalPortsAdded = [], LocalPortsRemoved = [],
             LocalSocketsAdded = [], LocalSocketsRemoved = [], Errors = [Error e]\<rparr>,
            st\<lparr>ports := ps\<rparr>, a', calls)
       \<and> Call_procnetunix_ParseFile \<notin> set calls
       \<and> sockets (fst (snd (collectEvent String w a st))) = sockets st"
proof -
  have "Call_procnetunix_ParseFile \<notin> set calls"
    using LocalPorts_calls [of w a] assms by simp
  then show ?thesis using assms by (simp add: collectEvent_def empty_Event_def)
qed

theorem collectEvent_port_failure_witness:
  "LocalPorts iptables_failing_world sample_agent =
     (([\<lparr>IP = [0, 0, 0, 0], Port = 8080\<rparr>], Some (errors_New ''iptables: exit status 1'')),
      sample_agent, [Call_procnettcp_ParseFiles, Call_iptables_GetPorts])
   \<and> collectEvent IPv4_String iptables_failing_world sample_agent sample_state =
       (\<lparr>Time = 1000, LocalPortsAdded = [], LocalPortsRemoved = [],
         LocalSocketsAdded = [], LocalSocketsRemoved = [],
         Errors = [''iptables: exit status 1'']\<rparr>,
        \<lparr>ports = [\<lparr>IP = [0, 0, 0, 0], Port = 8080\<rparr>], sockets = [''/run/a.sock'']\<rparr>,
        sample_agent, [Call_procnettcp_ParseFiles, Call_iptables_GetPorts])
   \<and> Call_procnetunix_ParseFile \<notin> set [Call_procnettcp_ParseFiles, Call_iptables_GetPorts]"
  using iptables_failing_LocalPorts
    collectEvent_port_failure [OF iptables_failing_LocalPorts, of IPv4_String sample_state]
  by (simp add: iptables_failing_world_def sample_world_def sample_state_def)

text \<open>
  The stored snapshot after a failed sample. The sample guest has reported two ports;
  in the next cycle the read of the connection tables fails. The state \<^verbatim>\<open>collectEvent\<close>
  returns for the following cycle has an empty port list: it is not the previous state.
  And when the read of the socket table fails in a cycle that finds two new ports, the
  state returned holds the new ports and no socket, and the event carries the two ports
  as added besides the error.
\<close>

theorem collectEvent_failed_sample_changes_state:
  "snd (fst (LocalPorts tcp_failing_world sample_agent)) =
     Some (errors_New ''open /proc/net/tcp: permission denied'')
   \<and> ports sample_state =
       [\<lparr>IP = [0, 0, 0, 0], Port = 8080\<rparr>, \<lparr>IP = [127, 0, 0, 1], Port = 9090\<rparr>]
   \<and> ports (fst (snd (collectEvent IPv4_String tcp_failing_world sample_agent sample_state))) = []
   \<and> fst (snd (collectEvent IPv4_String tcp_failing_world sample_agent sample_state))
       \<noteq> sample_state
   \<and> snd (fst (LocalSockets unix_failing_world)) =
       Some (errors_New ''open /proc/net/unix: permission denied'')
   \<and> fst (snd (collectEvent IPv4_String unix_failing_world sample_agent
                 \<lparr>ports = [], sockets = [''/run/a.sock'']\<rparr>)) =
       \<lparr>ports = [\<lparr>IP = [0, 0, 0, 0], Port = 8080\<rparr>, \<lparr>IP = [127, 0, 0, 1], Port = 9090\<rparr>],
        sockets = []\<rparr>
   \<and> LocalPortsAdded (fst (collectEvent IPv4_String unix_failing_world sample_agent
                 \<lparr>ports = [], sockets = [''/run/a.sock'']\<rparr>)) =
       [\<lparr>IP = [0, 0, 0, 0], Port = 8080\<rparr>, \<lparr>IP = [127, 0, 0, 1], Port = 9090\<rparr>]"
proof -
  have 1: "fst (snd (collectEvent IPv4_String tcp_failing_world sample_agent sample_state)) =
          sample_state\<lparr>ports := []\<rparr>"
    by (simp add: collectEvent_def tcp_failing_LocalPorts)
  have added: "comparePorts IPv4_String rev []
                 [\<lparr>IP = [0, 0, 0, 0], Port = 8080\<rparr>, \<lparr>IP = [127, 0, 0, 1], Port = 9090\<rparr>] =
               ([\<lparr>IP = [0, 0, 0, 0], Port = 8080\<rparr>, \<lparr>IP = [127, 0, 0, 1], Port = 9090\<rparr>], [])"
    by (simp add: comparePorts_def)
  have r: "rangePorts unix_failing_world = rev"
    by (simp add: unix_failing_world_def sample_world_def)
  have 2: "collectEvent IPv4_String unix_failing_world sample_agent
             \<lparr>ports = [], sockets = [''/run/a.sock'']\<rparr> =
           (empty_Event
              \<lparr>LocalPortsAdded :=
                 [\<lparr>IP = [0, 0, 0, 0], Port = 8080\<rparr>, \<lparr>IP = [127, 0, 0, 1], Port = 9090\<rparr>],
               Errors := [''open /proc/net/unix: permission denied''],
               Time := time_Now unix_failing_world\<rparr>,
            \<lparr>ports = [\<lparr>IP = [0, 0, 0, 0], Port = 8080\<rparr>, \<lparr>IP = [127, 0, 0, 1], Port = 9090\<rparr>],
             sockets = []\<rparr>,
            sample_agent\<lparr>latestIPTables :=
              [\<lparr>ipt_IP = [127, 0, 0, 1], ipt_Port = 8080\<rparr>,
               \<lparr>ipt_IP = [127, 0, 0, 1], ipt_Port = 9090\<rparr>,
               \<lparr>ipt_IP = [10, 0, 0, 2], ipt_Port = 9090\<rparr>]\<rparr>,
            [Call_procnettcp_ParseFiles, Call_iptables_GetPorts, Call_procnetunix_ParseFile])"
    by (simp add: collectEvent_def unix_failing_LocalPorts unix_failing_LocalSockets r added
        sample_state_def empty_Event_def)
  show ?thesis
    unfolding 1 2 tcp_failing_LocalPorts unix_failing_LocalSockets
    by (simp add: sample_state_def)
qed

text \<open>
  C2. Failed sample, as the code has it. If the port sampling fails, the event carries
  only the error and the timestamp, and the state carried forward is the previous one
  with its port list replaced by the list \<^verbatim>\<open>LocalPorts\<close> returned together with the
  error. If the socket sampling fails, the event carries the error, the timestamp and the
  port diff, and the state carried forward holds the newly sampled ports and the empty
  socket list \<^verbatim>\<open>LocalSockets\<close> returned together with the error.
\<close>

theorem collectEvent_failed_sample:
  "(LocalPorts w a = ((ps, Some e), a', calls) \<longrightarrow>
      collectEvent String w a st =
        (empty_Event\<lparr>Errors := [Error e], Time := time_Now w\<rparr>, st\<lparr>ports := ps\<rparr>, a', calls))
   \<and> (LocalPorts w a = ((ps, None), a', calls) \<and> LocalSockets w = ((ss, Some e), calls') \<longrightarrow>
      ss = [] \<and>
      collectEvent String w a st =
        (empty_Event
           \<lparr>LocalPortsAdded := fst (comparePorts String (rangePorts w) (ports st) ps),
            LocalPortsRemoved := snd (comparePorts String (rangePorts w) (ports st) ps),
            Errors := [Error e], Time := time_Now w\<rparr>,
         st\<lparr>ports := ps, sockets := []\<rparr>, a', calls @ calls'))"
proof (intro conjI impI)
  assume "LocalPorts w a = ((ps, Some e), a', calls)"
  then show "collectEvent String w a st =
        (empty_Event\<lparr>Errors := [Error e], Time := time_Now w\<rparr>, st\<lparr>ports := ps\<rparr>, a', calls)"
    by (simp add: collectEvent_def)
next
  assume h: "LocalPorts w a = ((ps, None), a', calls) \<and> LocalSockets w = ((ss, Some e), calls')"
  then show "ss = []"
    by (auto simp: LocalSockets_def split: sum.splits)
  with h show "collectEvent String w a st =
        (empty_Event
           \<lparr>LocalPortsAdded := fst (comparePorts String (rangePorts w) (ports st) ps),
            LocalPortsRemoved := snd (comparePorts String (rangePorts w) (ports st) ps),
            Errors := [Error e], Time := time_Now w\<rparr>,
         st\<lparr>ports := ps, sockets := []\<rparr>, a', calls @ calls')"
    by (simp add: collectEvent_def split_def empty_Event_def)
qed

theorem collectEvent_failed_sample_witness:
  "LocalPorts tcp_failing_world sample_agent =
     (([], Some (errors_New ''open /proc/net/tcp: permission denied'')),
      sample_agent, [Call_procnettcp_ParseFiles])
   \<and> collectEvent IPv4_String tcp_failing_world sample_agent sample_state =
       (empty_Event\<lparr>Errors := [''open /proc/net/tcp: permission denied''], Time := 1000\<rparr>,
        sample_state\<lparr>ports := []\<rparr>, sample_agent, [Call_procnettcp_ParseFiles])
   \<and> LocalPorts unix_failing_world sample_agent =
       ((ports sample_state, None),
        sample_agent\<lparr>latestIPTables :=
          [\<lparr>ipt_IP = [127, 0, 0, 1], ipt_Port = 8080\<rparr>,
           \<lparr>ipt_IP = [127, 0, 0, 1], ipt_Port = 9090\<rparr>,
           \<lparr>ipt_IP = [10, 0, 0, 2], ipt_Port = 9090\<rparr>]\<rparr>,
        [Call_procnettcp_ParseFiles, Call_iptables_GetPorts])
   \<and> LocalSockets unix_failing_world =
       (([], Some (errors_New ''open /proc/net/unix: permission denied'')),
        [Call_procnetunix_ParseFile])
   \<and> fst (snd (collectEvent IPv4_String unix_failing_world sample_agent
                 \<lparr>ports = [], sockets = [''/run/a.sock'']\<rparr>)) =
       \<lparr>ports = ports sample_state, sockets = []\<rparr>
   \<and> Errors (fst (collectEvent IPv4_String unix_failing_world sample_agent
                 \<lparr>ports = [], sockets = [''/run/a.sock'']\<rparr>)) =
       [''open /proc/net/unix: permission denied'']
   \<and> LocalPortsAdded (fst (collectEvent IPv4_String unix_failing_world sample_agent
                 \<lparr>ports = [], sockets = [''/run/a.sock'']\<rparr>)) =
       fst (comparePorts IPv4_String rev [] (ports sample_state))"
proof -
  have t: "time_Now tcp_failing_world = 1000" "rangePorts unix_failing_world = rev"
    by (simp_all add: tcp_failing_world_def unix_failing_world_def sample_world_def)
  from collectEvent_failed_sample
    [where w = tcp_failing_world and a = sample_agent and ps = "[]"
       and e = "errors_New ''open /proc/net/tcp: permission denied''"
       and a' = sample_agent and calls = "[Call_procnettcp_ParseFiles]"
       and String = IPv4_String and st = sample_state]
  have 1: "collectEvent IPv4_String tcp_failing_world sample_agent sample_state =
       (empty_Event\<lparr>Errors := [''open /proc/net/tcp: permission denied''], Time := 1000\<rparr>,
        sample_state\<lparr>ports := []\<rparr>, sample_agent, [Call_procnettcp_ParseFiles])"
    using tcp_failing_LocalPorts t by simp
  from collectEvent_failed_sample
    [where w = unix_failing_world and a = sample_agent and ps = "ports sample_state"
       and ss = "[]" and e = "errors_New ''open /proc/net/unix: permission denied''"
       and calls' = "[Call_procnetunix_ParseFile]" and String = IPv4_String
       and st = "\<lparr>ports = [], sockets = [''/run/a.sock'']\<rparr>"]
    unix_failing_LocalPorts unix_failing_LocalSockets
  have 2: "collectEvent IPv4_String unix_failing_world sample_agent
             \<lparr>ports = [], sockets = [''/run/a.sock'']\<rparr> =
        (empty_Event
           \<lparr>LocalPortsAdded := fst (comparePorts IPv4_String rev [] (ports sample_state)),
            LocalPortsRemoved := snd (comparePorts IPv4_String rev [] (ports sample_state)),
            Errors := [''open /proc/net/unix: permission denied''],
            Time := time_Now unix_failing_world\<rparr>,
         \<lparr>ports = ports sample_state, sockets = []\<rparr>,
         sample_agent\<lparr>latestIPTables :=
          [\<lparr>ipt_IP = [127, 0, 0, 1], ipt_Port = 8080\<rparr>,
           \<lparr>ipt_IP = [127, 0, 0, 1], ipt_Port = 9090\<rparr>,
           \<lparr>ipt_IP = [10, 0, 0, 2], ipt_Port = 9090\<rparr>]\<rparr>,
         [Call_procnettcp_ParseFiles, Call_iptables_GetPorts] @ [Call_procnetunix_ParseFile])"
    using t by simp
  show ?thesis
    using 1 2 tcp_failing_LocalPorts unix_failing_LocalPorts unix_failing_LocalSockets
    by simp
qed

text \<open>
  C7. No-op suppression. In a cycle whose sampling succeeds and returns the ports and
  the sockets of the previous state, the event is the empty event with the timestamp set,
  \<^verbatim>\<open>isEventEmpty\<close> holds of it, the state stays as it is, and the loop sends nothing for
  the cycle: what \<^verbatim>\<open>Events\<close> emits from this cycle on is what the later cycles emit.
\<close>

theorem Events_no_op_suppression:
  assumes "\<And>m. mset (rangePorts w m) = mset m"
    and "LocalPorts w a = ((ports st, None), a', calls)"
    and "LocalSockets w = ((sockets st, None), calls')"
  shows "collectEvent String w a st = (empty_Event\<lparr>Time := time_Now w\<rparr>, st, a', calls @ calls')
       \<and> isEventEmpty (empty_Event\<lparr>Time := time_Now w\<rparr>)
       \<and> Events_loop String ((worthCheckingIPTables a, w, sel) # cycles) a st =
           (case sel of tick \<Rightarrow> Events_loop String cycles a' st
            | ctx_Done \<Rightarrow> [] | ticker_closed \<Rightarrow> [])"
proof -
  have c: "collectEvent String w a st =
             (empty_Event\<lparr>Time := time_Now w\<rparr>, st, a', calls @ calls')"
    using assms(2,3)
    by (simp add: collectEvent_def comparePorts_same [OF assms(1)] compareSockets_same
        empty_Event_def)
  have e: "isEventEmpty (empty_Event\<lparr>Time := time_Now w\<rparr>)"
    by (simp add: isEventEmpty_def empty_Event_def)
  have "Events_loop String ((worthCheckingIPTables a, w, sel) # cycles) a st =
           (case sel of tick \<Rightarrow> Events_loop String cycles a' st
            | ctx_Done \<Rightarrow> [] | ticker_closed \<Rightarrow> [])"
    using c e by (cases sel) simp_all
  with c e show ?thesis by blast
qed

theorem Events_no_op_suppression_witness:
  "(\<forall>m. mset (rangePorts sample_world m) = mset m)
   \<and> LocalPorts sample_world sample_agent =
       ((ports sample_state, None),
        sample_agent\<lparr>latestIPTables :=
          [\<lparr>ipt_IP = [127, 0, 0, 1], ipt_Port = 8080\<rparr>,
           \<lparr>ipt_IP = [127, 0, 0, 1], ipt_Port = 9090\<rparr>,
           \<lparr>ipt_IP = [10, 0, 0, 2], ipt_Port = 9090\<rparr>]\<rparr>,
        [Call_procnettcp_ParseFiles, Call_iptables_GetPorts])
   \<and> LocalSockets sample_world = ((sockets sample_state, None), [Call_procnetunix_ParseFile])
   \<and> collectEvent IPv4_String sample_world sample_agent sample_state =
       (empty_Event\<lparr>Time := 1000\<rparr>, sample_state,
        sample_agent\<lparr>latestIPTables :=
          [\<lparr>ipt_IP = [127, 0, 0, 1], ipt_Port = 8080\<rparr>,
           \<lparr>ipt_IP = [127, 0, 0, 1], ipt_Port = 9090\<rparr>,
           \<lparr>ipt_IP = [10, 0, 0, 2], ipt_Port = 9090\<rparr>]\<rparr>,
        [Call_procnettcp_ParseFiles, Call_iptables_GetPorts, Call_procnetunix_ParseFile])
   \<and> Events_loop IPv4_String [(True, sample_world, ctx_Done)] sample_agent sample_state = []"
proof -
  have p: "mset (rangePorts sample_world m) = mset m" for m
    by (simp add: sample_world_def)
  have t: "time_Now sample_world = 1000" "worthCheckingIPTables sample_agent = True"
    by (simp_all add: sample_world_def sample_agent_def)
  from Events_no_op_suppression [of sample_world, OF p sample_LocalPorts sample_LocalSockets,
      of IPv4_String ctx_Done "[]"]
  show ?thesis using p sample_LocalPorts sample_LocalSockets t by simp
qed

section \<open>Properties of \<^verbatim>\<open>setWorthCheckingIPTablesRoutine\<close>\<close>

lemma time_Sub_less:
  assumes "t0 \<le> c" and "c < t0 + sint (T :: Duration)"
  shows "\<not> sint T \<le> time_Sub c t0"
  using assms by (simp add: time_Sub_def)

lemma time_Sub_ge:
  assumes "t0 + sint (T :: Duration) \<le> c"
  shows "sint T \<le> time_Sub c t0"
proof -
  have "sint T < 2 ^ (LENGTH(64) - 1)" by (rule sint_lt)
  then have "sint T \<le> 2 ^ 63 - 1" by simp
  moreover have "sint T \<le> c - t0" using assms by simp
  ultimately show ?thesis by (simp add: time_Sub_def)
qed

lemma routine_idle:
  assumes "\<forall>s\<in>set steps. \<not> is_notification s"
    and "\<forall>c\<in>set (check_times steps). latestTrue r \<le> c \<and> c < latestTrue r + sint T"
  shows "setWorthCheckingIPTablesRoutine T steps r = r"
  using assms
proof (induction steps)
  case Nil
  show ?case by simp
next
  case (Cons s steps)
  have "setWorthChecking_step T s r = r"
  proof (cases s)
    case (Idle_check c)
    with Cons.prems(2) have "latestTrue r \<le> c" "c < latestTrue r + sint T" by simp_all
    then have "\<not> sint T \<le> time_Sub c (latestTrue r)" by (rule time_Sub_less)
    with Idle_check show ?thesis by simp
  next
    case (Receive_NETFILTER_CFG t)
    with Cons.prems(1) show ?thesis by simp
  qed simp_all
  moreover have "\<forall>c\<in>set (check_times steps). latestTrue r \<le> c \<and> c < latestTrue r + sint T"
    using Cons.prems(2) by (cases s) simp_all
  ultimately show ?case using Cons.IH Cons.prems(1) by simp
qed

lemma routine_append:
  "setWorthCheckingIPTablesRoutine T (xs @ ys) r =
     setWorthCheckingIPTablesRoutine T ys (setWorthCheckingIPTablesRoutine T xs r)"
  by (induction xs arbitrary: r) simp_all

text \<open>
  C9. Worthiness idle decay. After a notification at \<open>t0\<close>, let the routine take any
  steps that are not notifications, with every idle check at an instant from \<open>t0\<close> on
  and before \<open>t0 + T\<close>: the flag is true after them. If the next step is an idle
  check at or after \<open>t0 + T\<close>, the flag is false after it.
\<close>

theorem worthiness_idle_decay:
  assumes "\<forall>s\<in>set steps. \<not> is_notification s"
    and "\<forall>c\<in>set (check_times steps). t0 \<le> c \<and> c < t0 + sint T"
  shows "flag (setWorthCheckingIPTablesRoutine T steps
                 (setWorthChecking_step T (Receive_NETFILTER_CFG t0) r)) = True
       \<and> (t0 + sint T \<le> c' \<longrightarrow>
           flag (setWorthCheckingIPTablesRoutine T (steps @ [Idle_check c'])
                   (setWorthChecking_step T (Receive_NETFILTER_CFG t0) r)) = False)"
proof -
  define r1 where "r1 = r\<lparr>flag := True, latestTrue := t0\<rparr>"
  have r1: "setWorthChecking_step T (Receive_NETFILTER_CFG t0) r = r1"
    by (simp add: r1_def)
  have l: "latestTrue r1 = t0" and f: "flag r1 = True" by (simp_all add: r1_def)
  have same: "setWorthCheckingIPTablesRoutine T steps r1 = r1"
    using assms l by (intro routine_idle) simp_all
  have "flag (setWorthCheckingIPTablesRoutine T (steps @ [Idle_check c']) r1) = False"
    if "t0 + sint T \<le> c'"
  proof -
    have "sint T \<le> time_Sub c' t0" using that by (rule time_Sub_ge)
    then show ?thesis by (simp add: routine_append same l)
  qed
  with same f show ?thesis unfolding r1 by simp
qed

theorem worthiness_idle_decay_witness:
  "100 + sint (5 :: Duration) \<le> 105
   \<and> flag (setWorthCheckingIPTablesRoutine 5
             [Idle_check 102, Receive_other, Idle_check 104, Receive_error]
             (setWorthChecking_step 5 (Receive_NETFILTER_CFG 100)
                \<lparr>flag = False, latestTrue = 0\<rparr>)) = True
   \<and> flag (setWorthCheckingIPTablesRoutine 5
             ([Idle_check 102, Receive_other, Idle_check 104, Receive_error] @ [Idle_check 105])
             (setWorthChecking_step 5 (Receive_NETFILTER_CFG 100)
                \<lparr>flag = False, latestTrue = 0\<rparr>)) = False"
proof -
  have h1: "\<forall>s\<in>set [Idle_check 102, Receive_other, Idle_check 104, Receive_error].
       \<not> is_notification s" by simp
  have h2: "\<forall>c\<in>set (check_times [Idle_check 102, Receive_other, Idle_check 104, Receive_error]).
       100 \<le> c \<and> c < 100 + sint (5 :: Duration)" by simp
  have h3: "100 + sint (5 :: Duration) \<le> 105" by simp
  from worthiness_idle_decay [OF h1 h2, of "\<lparr>flag = False, latestTrue = 0\<rparr>" 105] h3
  show ?thesis by blast
qed

section \<open>Properties of the host side\<close>

lemma onEvent_not_terminal:
  assumes "\<not> Exiting (Event_Status ev)" and "\<not> Running (Event_Status ev)"
  shows "fst (onEvent instName p ev v) = False"
    and "err (snd (onEvent instName p ev v)) = err v"
    and "receivedRunningEvent (snd (onEvent instName p ev v)) = receivedRunningEvent v"
  using assms by (simp_all add: onEvent_def Let_def)

lemma onEvent_terminal:
  assumes "Exiting (Event_Status ev) \<or> Running (Event_Status ev)"
  shows "fst (onEvent instName p ev v) = True"
    and "err (snd (onEvent instName p ev v)) =
          (if Exiting (Event_Status ev) then Some (exiting_status (Event_Status ev) p)
           else if Degraded (Event_Status ev) then Some (degraded_status (Event_Status ev))
           else None)"
    and "\<not> Exiting (Event_Status ev) \<Longrightarrow> receivedRunningEvent (snd (onEvent instName p ev v))"
  using assms by (auto simp: onEvent_def Let_def)

lemma WatchEvents_skip:
  assumes "\<forall>ev\<in>set pre. \<not> Exiting (Event_Status ev) \<and> \<not> Running (Event_Status ev)"
  shows "\<exists>v'. WatchEvents (pre @ rest) ended (onEvent instName p) v =
               WatchEvents rest ended (onEvent instName p) v'
             \<and> err v' = err v \<and> receivedRunningEvent v' = receivedRunningEvent v"
  using assms
proof (induction pre arbitrary: v)
  case Nil
  show ?case by (intro exI [of _ v]) simp
next
  case (Cons ev pre)
  let ?v = "snd (onEvent instName p ev v)"
  from Cons.prems have n: "\<not> Exiting (Event_Status ev)" "\<not> Running (Event_Status ev)"
    by simp_all
  have step: "WatchEvents ((ev # pre) @ rest) ended (onEvent instName p) v =
              WatchEvents (pre @ rest) ended (onEvent instName p) ?v"
    using onEvent_not_terminal(1) [OF n, of instName p v] by (simp add: split_def)
  from Cons.IH [of ?v] Cons.prems obtain v' where
    "WatchEvents (pre @ rest) ended (onEvent instName p) ?v =
       WatchEvents rest ended (onEvent instName p) v'"
    "err v' = err ?v" "receivedRunningEvent v' = receivedRunningEvent ?v" by auto
  with step onEvent_not_terminal(2,3) [OF n, of instName p v] show ?case by auto
qed

text \<open>
  C4. Lifecycle event folding. Let the events before \<open>e\<close> be neither exiting nor
  running, and \<open>e\<close> be exiting or running. Then the watch ends at \<open>e\<close>, whatever follows
  it: the result is the exiting error with the stderr log path if \<open>e\<close> is exiting,
  otherwise the degraded error if \<open>e\<close> is degraded, otherwise nil. The callback asks to
  stop at \<open>e\<close> and at none of the earlier events; with the earlier events alone the watch
  runs to its end and fails.
\<close>

theorem watchHostAgentEvents_fold:
  assumes "\<forall>ev\<in>set pre. \<not> Exiting (Event_Status ev) \<and> \<not> Running (Event_Status ev)"
    and "Exiting (Event_Status e) \<or> Running (Event_Status e)"
  shows "fst (watchHostAgentEvents instName p (pre @ e # post) ended) =
           (if Exiting (Event_Status e) then Some (exiting_status (Event_Status e) p)
            else if Degraded (Event_Status e) then Some (degraded_status (Event_Status e))
            else None)
       \<and> fst (watchHostAgentEvents instName p pre ended) =
           (if ended \<noteq> None then ended else Some did_not_receive_running)
       \<and> (\<forall>ev\<in>set pre. \<forall>v. fst (onEvent instName p ev v) = False)
       \<and> (\<forall>v. fst (onEvent instName p e v) = True)"
proof -
  let ?init = "\<lparr>printedSSHLocalPort = False, receivedRunningEvent = False,
              err = None, logged = []\<rparr>"
  from WatchEvents_skip [OF assms(1), of "e # post" ended instName p ?init] obtain v' where
    v': "WatchEvents (pre @ e # post) ended (onEvent instName p) ?init =
           WatchEvents (e # post) ended (onEvent instName p) v'" by blast
  let ?v = "snd (onEvent instName p e v')"
  have "WatchEvents (e # post) ended (onEvent instName p) v' = (None, ?v)"
    using onEvent_terminal(1) [OF assms(2), of instName p v'] by (simp add: split_def)
  with v' have w: "WatchEvents (pre @ e # post) ended (onEvent instName p) ?init = (None, ?v)"
    by (rule trans)
  have 1: "fst (watchHostAgentEvents instName p (pre @ e # post) ended) =
           (if Exiting (Event_Status e) then Some (exiting_status (Event_Status e) p)
            else if Degraded (Event_Status e) then Some (degraded_status (Event_Status e))
            else None)"
    using assms(2) onEvent_terminal(2,3) [OF assms(2), of instName p v']
    by (auto simp: watchHostAgentEvents_def w)
  from WatchEvents_skip [OF assms(1), of "[]" ended instName p ?init] obtain v'' where
    v'': "WatchEvents pre ended (onEvent instName p) ?init = (ended, v'')"
      "err v'' = None" "receivedRunningEvent v'' = False" by auto
  have 2: "fst (watchHostAgentEvents instName p pre ended) =
           (if ended \<noteq> None then ended else Some did_not_receive_running)"
    by (simp add: watchHostAgentEvents_def v'')
  have 3: "\<forall>ev\<in>set pre. \<forall>v. fst (onEvent instName p ev v) = False"
    using assms(1) onEvent_not_terminal(1) by blast
  have 4: "\<forall>v. fst (onEvent instName p e v) = True"
    using onEvent_terminal(1) [OF assms(2)] by blast
  show ?thesis using 1 2 3 4 by blast
qed

theorem watchHostAgentEvents_fold_witness:
  "fst (watchHostAgentEvents ''default'' ''/lima/default/ha.stderr.log''
          ([event_ssh_port] @ event_running # [event_exiting]) None) = None
   \<and> fst (watchHostAgentEvents ''default'' ''/lima/default/ha.stderr.log''
          ([event_ssh_port] @ event_degraded # [event_running]) None) =
       Some (degraded_status (Event_Status event_degraded))
   \<and> fst (watchHostAgentEvents ''default'' ''/lima/default/ha.stderr.log''
          ([event_ssh_port] @ event_exiting # [event_running]) None) =
       Some (exiting_status (Event_Status event_exiting) ''/lima/default/ha.stderr.log'')
   \<and> fst (watchHostAgentEvents ''default'' ''/lima/default/ha.stderr.log''
          [event_ssh_port] None) = Some did_not_receive_running"
proof -
  have pre: "\<forall>ev\<in>set [event_ssh_port].
      \<not> Exiting (Event_Status ev) \<and> \<not> Running (Event_Status ev)"
    by (simp add: event_ssh_port_def)
  have r: "Exiting (Event_Status event_running) \<or> Running (Event_Status event_running)"
    and d: "Exiting (Event_Status event_degraded) \<or> Running (Event_Status event_degraded)"
    and x: "Exiting (Event_Status event_exiting) \<or> Running (Event_Status event_exiting)"
    by (simp_all add: event_running_def event_degraded_def event_exiting_def)
  have v: "\<not> Exiting (Event_Status event_running)" "\<not> Degraded (Event_Status event_running)"
    "\<not> Exiting (Event_Status event_degraded)" "Degraded (Event_Status event_degraded)"
    "Exiting (Event_Status event_exiting)"
    by (simp_all add: event_running_def event_degraded_def event_exiting_def)
  from watchHostAgentEvents_fold [OF pre r, of "''default''" "''/lima/default/ha.stderr.log''"
      "[event_exiting]" None]
    watchHostAgentEvents_fold [OF pre d, of "''default''" "''/lima/default/ha.stderr.log''"
      "[event_running]" None]
    watchHostAgentEvents_fold [OF pre x, of "''default''" "''/lima/default/ha.stderr.log''"
      "[event_running]" None]
  show ?thesis using v by simp
qed

text \<open>
  C5. Uniformly fatal subprocess exit. When \<^verbatim>\<open>Start\<close> has spawned the host agent, the
  pidfile has appeared, and the \<^verbatim>\<open>select\<close> receives from the exit wait first, \<^verbatim>\<open>Start\<close>
  returns the error "host agent process has exited" wrapping the wait error, whatever
  that is (also nil): it never returns nil.
\<close>

theorem Start_wait_first:
  assumes "Start_spawn env = None"
    and "waitHostAgentStart (haPIDPath env) (haStderrPath env) (wait_rounds env) = Some None"
    and "select_first env = from_waitErrCh"
  shows "Start env = Some (Some (host_agent_process_has_exited (haCmd_Wait_err env)))
       \<and> Start env \<noteq> Some None"
  using assms by (simp add: Start_def Start_select_def)

theorem Start_wait_first_witness:
  "Start_spawn sample_start = None
   \<and> waitHostAgentStart (haPIDPath sample_start) (haStderrPath sample_start)
       (wait_rounds sample_start) = Some None
   \<and> select_first sample_start = from_waitErrCh
   \<and> haCmd_Wait_err sample_start = None
   \<and> Start sample_start = Some (Some (host_agent_process_has_exited None))"
proof -
  have h1: "Start_spawn sample_start = None"
    by (simp add: Start_spawn_def ensureDisk_def sample_start_def)
  have h2: "waitHostAgentStart (haPIDPath sample_start) (haStderrPath sample_start)
       (wait_rounds sample_start) = Some None"
    by (simp add: sample_start_def)
  have h3: "select_first sample_start = from_waitErrCh"
    and h4: "haCmd_Wait_err sample_start = None"
    by (simp_all add: sample_start_def)
  from Start_wait_first [OF h1 h2 h3] h1 h2 h3 h4 show ?thesis by simp
qed

end
